theory Spec2Isabelle
  imports Main "HOL-Library.Sublist"
begin

section \<open>Go string helpers (package strings) over byte strings\<close>

text \<open>
  A Go string is a sequence of bytes; \<^typ>\<open>string\<close> is a list of 8-bit characters, so
  the two agree. The helpers below are the functions of package \<open>strings\<close> that the
  modelled code calls, with a one-byte separator where the code passes \<open>","\<close> or \<open>"="\<close>.
\<close>

definition HasPrefix :: "string \<Rightarrow> string \<Rightarrow> bool" where
  "HasPrefix s pre = (take (length pre) s = pre)"

definition HasSuffix :: "string \<Rightarrow> string \<Rightarrow> bool" where
  "HasSuffix s suf = (length suf \<le> length s \<and> drop (length s - length suf) s = suf)"

definition TrimPrefix :: "string \<Rightarrow> string \<Rightarrow> string" where
  "TrimPrefix s pre = (if HasPrefix s pre then drop (length pre) s else s)"

fun Contains :: "string \<Rightarrow> string \<Rightarrow> bool" where
  "Contains [] sub = (sub = [])"
| "Contains (c # cs) sub = (HasPrefix (c # cs) sub \<or> Contains cs sub)"

fun Join :: "string list \<Rightarrow> string \<Rightarrow> string" where
  "Join [] sep = []"
| "Join [x] sep = x"
| "Join (x # y # ys) sep = x @ sep @ Join (y # ys) sep"

fun Split :: "string \<Rightarrow> char \<Rightarrow> string list" where
  "Split [] sep = [[]]"
| "Split (c # cs) sep =
     (if c = sep then [] # Split cs sep
      else (case Split cs sep of p # ps \<Rightarrow> (c # p) # ps | [] \<Rightarrow> [[c]]))"

fun SplitN :: "string \<Rightarrow> char \<Rightarrow> nat \<Rightarrow> string list" where
  "SplitN s sep 0 = []"
| "SplitN s sep (Suc 0) = [s]"
| "SplitN s sep (Suc (Suc n)) =
     (if sep \<in> set s
      then takeWhile (\<lambda>c. c \<noteq> sep) s # SplitN (tl (dropWhile (\<lambda>c. c \<noteq> sep) s)) sep (Suc n)
      else [s])"

text \<open>
  \<open>strings.TrimSpace\<close> removes leading and trailing white space as defined by Unicode.
  On bytes: the six ASCII space bytes, and the UTF-8 encodings of U+0085, U+00A0, U+1680,
  U+2000..U+200A, U+2028, U+2029, U+202F, U+205F and U+3000.
\<close>

definition asciiSpace :: "char \<Rightarrow> bool" where
  "asciiSpace c = (c \<in> set [CHR 0x09, CHR 0x0A, CHR 0x0B, CHR 0x0C, CHR 0x0D, CHR 0x20])"

definition unicodeSpaces :: "string list" where
  "unicodeSpaces =
     [[CHR 0xC2, CHR 0x85], [CHR 0xC2, CHR 0xA0], [CHR 0xE1, CHR 0x9A, CHR 0x80],
      [CHR 0xE2, CHR 0x80, CHR 0x80], [CHR 0xE2, CHR 0x80, CHR 0x81],
      [CHR 0xE2, CHR 0x80, CHR 0x82], [CHR 0xE2, CHR 0x80, CHR 0x83],
      [CHR 0xE2, CHR 0x80, CHR 0x84], [CHR 0xE2, CHR 0x80, CHR 0x85],
      [CHR 0xE2, CHR 0x80, CHR 0x86], [CHR 0xE2, CHR 0x80, CHR 0x87],
      [CHR 0xE2, CHR 0x80, CHR 0x88], [CHR 0xE2, CHR 0x80, CHR 0x89],
      [CHR 0xE2, CHR 0x80, CHR 0x8A], [CHR 0xE2, CHR 0x80, CHR 0xA8],
      [CHR 0xE2, CHR 0x80, CHR 0xA9], [CHR 0xE2, CHR 0x80, CHR 0xAF],
      [CHR 0xE2, CHR 0x81, CHR 0x9F], [CHR 0xE3, CHR 0x80, CHR 0x80]]"

definition leadingSpace :: "string \<Rightarrow> nat" where
  "leadingSpace s =
     (case s of [] \<Rightarrow> 0
      | c # _ \<Rightarrow> if asciiSpace c then 1
                 else (case find (HasPrefix s) unicodeSpaces of
                         Some e \<Rightarrow> length e | None \<Rightarrow> 0))"

definition trailingSpace :: "string \<Rightarrow> nat" where
  "trailingSpace s =
     (case rev s of [] \<Rightarrow> 0
      | c # _ \<Rightarrow> if asciiSpace c then 1
                 else (case find (HasSuffix s) unicodeSpaces of
                         Some e \<Rightarrow> length e | None \<Rightarrow> 0))"

function TrimLeftSpace :: "string \<Rightarrow> string" where
  "TrimLeftSpace s = (if leadingSpace s = 0 then s else TrimLeftSpace (drop (leadingSpace s) s))"
  by pat_completeness auto
termination
proof (relation "measure length")
  show "wf (measure length)" by simp
next
  fix s :: string
  assume nz: "leadingSpace s \<noteq> 0"
  have "leadingSpace s \<le> length s"
  proof (cases s)
    case Nil
    then show ?thesis by (simp add: leadingSpace_def)
  next
    case (Cons c cs)
    show ?thesis
    proof (cases "find (HasPrefix s) unicodeSpaces")
      case None
      with Cons show ?thesis by (simp add: leadingSpace_def)
    next
      case (Some e)
      then have "HasPrefix s e" by (auto simp: find_Some_iff)
      then have "length (take (length e) s) = length e"
        by (simp add: HasPrefix_def)
      then have "length e \<le> length s" by simp
      with Cons Some show ?thesis by (simp add: leadingSpace_def)
    qed
  qed
  with nz show "(drop (leadingSpace s) s, s) \<in> measure length" by simp
qed

function TrimRightSpace :: "string \<Rightarrow> string" where
  "TrimRightSpace s =
     (if trailingSpace s = 0 then s else TrimRightSpace (take (length s - trailingSpace s) s))"
  by pat_completeness auto
termination
proof (relation "measure length")
  show "wf (measure length)" by simp
next
  fix s :: string
  assume nz: "trailingSpace s \<noteq> 0"
  have "trailingSpace s \<le> length s"
  proof (cases "rev s")
    case Nil
    then show ?thesis by (simp add: trailingSpace_def)
  next
    case (Cons c cs)
    then have ne: "s \<noteq> []" by auto
    show ?thesis
    proof (cases "find (HasSuffix s) unicodeSpaces")
      case None
      with Cons ne show ?thesis by (simp add: trailingSpace_def Suc_leI)
    next
      case (Some e)
      then have "HasSuffix s e" by (auto simp: find_Some_iff)
      then have "length e \<le> length s" by (simp add: HasSuffix_def)
      with Cons Some ne show ?thesis by (simp add: trailingSpace_def Suc_leI)
    qed
  qed
  with nz show "(take (length s - trailingSpace s) s, s) \<in> measure length" by simp
qed

definition TrimSpace :: "string \<Rightarrow> string" where
  "TrimSpace s = TrimRightSpace (TrimLeftSpace s)"

section \<open>Errors\<close>

text \<open>
  Every \<open>fmt.Errorf\<close> of the modelled functions is a constructor; \<open>%w\<close> wrapping is a
  constructor that carries the wrapped error. \<open>Error\<close> renders the message, as the
  method of the same name does in Go.
\<close>

datatype error =
    VirtioPortNotAvailable
  | InstallFailed error
  | StartFailed error
  | NoPackageManager
  | StartCommandFailed string string
  | StartedButNotRunning
  | InvalidDisplayString string
  | HostPortRequired
  | UnsupportedPlatform string
  | NoViewerFound

primrec Error :: "error \<Rightarrow> string" where
  "Error VirtioPortNotAvailable = ''virtio console port not available (host SPICE not configured)''"
| "Error (InstallFailed e) = ''failed to install spice-vdagent: '' @ Error e"
| "Error (StartFailed e) = ''failed to start spice-vdagentd: '' @ Error e"
| "Error NoPackageManager = ''no supported package manager found or installation failed''"
| "Error (StartCommandFailed err out) =
     ''failed to start spice-vdagentd: '' @ err @ '' (output: '' @ out @ '')''"
| "Error StartedButNotRunning = ''service started but not running''"
| "Error (InvalidDisplayString s) = ''invalid SPICE display string: '' @ s"
| "Error HostPortRequired = ''host and port required for TCP connection''"
| "Error (UnsupportedPlatform goos) = ''unsupported platform: '' @ goos"
| "Error NoViewerFound = ''no SPICE viewer found, install remote-viewer or spicy''"

section \<open>The guest operating system as seen by package spiceservice\<close>

text \<open>
  The guest agent reads directories, stats a path, resolves executables on the search
  path and runs commands. A \<open>system\<close> gives the answers of the guest in a world \<open>'w\<close>;
  running a command yields the error of \<open>exec\<close> (\<open>None\<close> for exit status 0), the
  captured output and the next world. A time-out of the command's context is one of the
  errors a command can return. Every lookup and every command is appended to a trace
  together with its answer, so that what a function did can be read off afterwards.
  Calls of the logger are not modelled.
\<close>

type_synonym argv = "string list"

type_synonym cmd_result = "string option \<times> string"

record 'w system =
  ReadDir :: "'w \<Rightarrow> string \<Rightarrow> string list option"
  Stat :: "'w \<Rightarrow> string \<Rightarrow> bool"
  LookPath :: "'w \<Rightarrow> string \<Rightarrow> string option"
  Run :: "'w \<Rightarrow> argv \<Rightarrow> cmd_result \<times> 'w"

datatype event = Looked string "string option" | Ran argv cmd_result

type_synonym 'w state = "'w \<times> event list"

definition lookPath :: "'w system \<Rightarrow> string \<Rightarrow> 'w state \<Rightarrow> string option \<times> 'w state" where
  "lookPath sys name st =
     (let r = LookPath sys (fst st) name in (r, (fst st, snd st @ [Looked name r])))"

definition exec :: "'w system \<Rightarrow> argv \<Rightarrow> 'w state \<Rightarrow> cmd_result \<times> 'w state" where
  "exec sys av st =
     (case Run sys (fst st) av of (r, w') \<Rightarrow> (r, (w', snd st @ [Ran av r])))"

section \<open>Guest clipboard readiness detector\<close>

record SpiceStatus =
  AgentInstalled :: bool
  AgentRunning :: bool
  VPortExists :: bool
  ClipboardReady :: bool
  ErrorMessage :: string

definition checkVirtioPort :: "'w system \<Rightarrow> 'w \<Rightarrow> bool" where
  "checkVirtioPort sys w =
     (case ReadDir sys w ''/dev'' of
        None \<Rightarrow> False
      | Some matches \<Rightarrow>
          if \<exists>name \<in> set matches. HasPrefix name ''vport'' then True
          else if Stat sys w ''/sys/class/virtio-ports''
          then (case ReadDir sys w ''/sys/class/virtio-ports'' of
                  Some entries \<Rightarrow> 0 < length entries
                | None \<Rightarrow> False)
          else False)"

definition checkSpiceInstalled :: "'w system \<Rightarrow> 'w state \<Rightarrow> bool \<times> 'w state" where
  "checkSpiceInstalled sys st =
     (case lookPath sys ''spice-vdagentd'' st of
        (Some path, st1) \<Rightarrow> (True, st1)
      | (None, st1) \<Rightarrow>
          (case exec sys [''dpkg'', ''-l'', ''spice-vdagent''] st1 of
             ((None, out), st2) \<Rightarrow> (True, st2)
           | ((Some err, out), st2) \<Rightarrow>
               (case exec sys [''rpm'', ''-q'', ''spice-vdagent''] st2 of
                  ((None, out3), st3) \<Rightarrow> (True, st3)
                | ((Some err3, out3), st3) \<Rightarrow> (False, st3))))"

definition checkSpiceRunning :: "'w system \<Rightarrow> 'w state \<Rightarrow> bool \<times> 'w state" where
  "checkSpiceRunning sys st =
     (case exec sys [''systemctl'', ''is-active'', ''spice-vdagentd''] st of
        ((err, output), st1) \<Rightarrow>
          if err = None \<and> TrimSpace output = ''active'' then (True, st1)
          else (case exec sys [''pgrep'', ''-x'', ''spice-vdagentd''] st1 of
                  ((None, out2), st2) \<Rightarrow> (True, st2)
                | ((Some err2, out2), st2) \<Rightarrow> (False, st2)))"

definition buildErrorMessage :: "SpiceStatus \<Rightarrow> string" where
  "buildErrorMessage status =
     (let reasons =
            (if \<not> VPortExists status
             then [''virtio console port not found (host SPICE not configured)''] else [])
          @ (if \<not> AgentInstalled status then [''spice-vdagent package not installed''] else [])
          @ (if AgentInstalled status \<and> \<not> AgentRunning status
             then [''spice-vdagentd service not running''] else [])
      in if length reasons = 0 then []
         else ''SPICE clipboard not ready: '' @ Join reasons ''; '')"

definition DetectSpiceStatus :: "'w system \<Rightarrow> 'w state \<Rightarrow> SpiceStatus \<times> 'w state" where
  "DetectSpiceStatus sys st =
     (let status0 = \<lparr>AgentInstalled = False, AgentRunning = False, VPortExists = False,
                      ClipboardReady = False, ErrorMessage = []\<rparr>;
          status1 = status0\<lparr>VPortExists := checkVirtioPort sys (fst st)\<rparr>;
          (installed, st1) = checkSpiceInstalled sys st;
          status2 = status1\<lparr>AgentInstalled := installed\<rparr>;
          (status3, st2) =
             (if AgentInstalled status2
              then (case checkSpiceRunning sys st1 of
                      (running, st') \<Rightarrow> (status2\<lparr>AgentRunning := running\<rparr>, st'))
              else (status2, st1));
          status4 = status3\<lparr>ClipboardReady :=
                       VPortExists status3 \<and> AgentInstalled status3 \<and> AgentRunning status3\<rparr>;
          status5 = (if \<not> ClipboardReady status4
                     then status4\<lparr>ErrorMessage := buildErrorMessage status4\<rparr>
                     else status4)
      in (status5, st2))"

section \<open>Guest clipboard supervisor\<close>

record packageManager =
  cmd :: string
  args :: "string list"
  pkgName :: string

definition packageManagers :: "packageManager list" where
  "packageManagers =
     [\<lparr>cmd = ''apt-get'', args = [''install'', ''-y''], pkgName = ''spice-vdagent''\<rparr>,
      \<lparr>cmd = ''dnf'', args = [''install'', ''-y''], pkgName = ''spice-vdagent''\<rparr>,
      \<lparr>cmd = ''yum'', args = [''install'', ''-y''], pkgName = ''spice-vdagent''\<rparr>,
      \<lparr>cmd = ''zypper'', args = [''install'', ''-y''], pkgName = ''spice-vdagent''\<rparr>,
      \<lparr>cmd = ''pacman'', args = [''-S'', ''--noconfirm''], pkgName = ''spice-vdagent''\<rparr>]"

definition installCommand :: "packageManager \<Rightarrow> argv" where
  "installCommand pm = cmd pm # (args pm @ [pkgName pm])"

text \<open>
  The loop of \<open>installSpiceAgent\<close> over the table: \<open>continue\<close> when the executable does
  not resolve, \<open>continue\<close> when the install command fails, \<open>return nil\<close> when it succeeds,
  and the error after the loop.
\<close>

fun installLoop :: "'w system \<Rightarrow> packageManager list \<Rightarrow> 'w state \<Rightarrow> error option \<times> 'w state" where
  "installLoop sys [] st = (Some NoPackageManager, st)"
| "installLoop sys (pm # pms) st =
     (case lookPath sys (cmd pm) st of
        (None, st1) \<Rightarrow> installLoop sys pms st1
      | (Some path, st1) \<Rightarrow>
          (case exec sys (installCommand pm) st1 of
             ((Some err, output), st2) \<Rightarrow> installLoop sys pms st2
           | ((None, output), st2) \<Rightarrow> (None, st2)))"

definition installSpiceAgent :: "'w system \<Rightarrow> 'w state \<Rightarrow> error option \<times> 'w state" where
  "installSpiceAgent sys st = installLoop sys packageManagers st"

text \<open>
  \<open>startSpiceService\<close>: the failure of \<open>systemctl enable\<close> is only logged; the half second
  of sleep before the verification is not modelled.
\<close>

definition startSpiceService :: "'w system \<Rightarrow> 'w state \<Rightarrow> error option \<times> 'w state" where
  "startSpiceService sys st =
     (case exec sys [''systemctl'', ''enable'', ''spice-vdagentd''] st of
        (enabled, st1) \<Rightarrow>
          (case exec sys [''systemctl'', ''start'', ''spice-vdagentd''] st1 of
             ((Some err, output), st2) \<Rightarrow> (Some (StartCommandFailed err output), st2)
           | ((None, output), st2) \<Rightarrow>
               (case checkSpiceRunning sys st2 of
                  (running, st3) \<Rightarrow>
                    if \<not> running then (Some StartedButNotRunning, st3) else (None, st3))))"

definition EnsureSpiceAgent :: "'w system \<Rightarrow> 'w state \<Rightarrow> error option \<times> 'w state" where
  "EnsureSpiceAgent sys st =
     (case DetectSpiceStatus sys st of
        (status, st1) \<Rightarrow>
          if ClipboardReady status then (None, st1)
          else if \<not> VPortExists status then (Some VirtioPortNotAvailable, st1)
          else
            (case (if \<not> AgentInstalled status
                   then (case installSpiceAgent sys st1 of
                           (Some err, st2) \<Rightarrow> (Some (InstallFailed err), status, st2)
                         | (None, st2) \<Rightarrow> (None, status\<lparr>AgentInstalled := True\<rparr>, st2))
                   else (None, status, st1)) of
               (Some err, status', st2) \<Rightarrow> (Some err, st2)
             | (None, status', st2) \<Rightarrow>
                 if \<not> AgentRunning status'
                 then (case startSpiceService sys st2 of
                         (Some err, st3) \<Rightarrow> (Some (StartFailed err), st3)
                       | (None, st3) \<Rightarrow> (None, st3))
                 else (None, st2)))"

text \<open>
  The events of the detector are lookups and the four query commands; the events of a
  repair are the install commands of the table and the enable and start requests.
\<close>

definition probeCommands :: "argv list" where
  "probeCommands =
     [[''dpkg'', ''-l'', ''spice-vdagent''], [''rpm'', ''-q'', ''spice-vdagent''],
      [''systemctl'', ''is-active'', ''spice-vdagentd''], [''pgrep'', ''-x'', ''spice-vdagentd'']]"

definition repairCommands :: "argv list" where
  "repairCommands =
     map installCommand packageManagers
     @ [[''systemctl'', ''enable'', ''spice-vdagentd''], [''systemctl'', ''start'', ''spice-vdagentd'']]"

fun isProbe :: "event \<Rightarrow> bool" where
  "isProbe (Looked name r) = True"
| "isProbe (Ran av r) = (av \<in> set probeCommands)"

fun isRepair :: "event \<Rightarrow> bool" where
  "isRepair (Looked name r) = False"
| "isRepair (Ran av r) = (av \<in> set repairCommands)"

text \<open>The commands of a trace with their results, lookups left out.\<close>

fun attempts :: "event list \<Rightarrow> (argv \<times> cmd_result) list" where
  "attempts [] = []"
| "attempts (Looked name r # evs) = attempts evs"
| "attempts (Ran av r # evs) = (av, r) # attempts evs"

text \<open>
  Further readings of a trace: the executables looked up, in order; those that resolved;
  those that did not.
\<close>

fun probed :: "event list \<Rightarrow> string list" where
  "probed [] = []"
| "probed (Looked name r # evs) = name # probed evs"
| "probed (Ran av r # evs) = probed evs"

fun resolved :: "event list \<Rightarrow> string list" where
  "resolved [] = []"
| "resolved (Looked name r # evs) = (if r = None then resolved evs else name # resolved evs)"
| "resolved (Ran av r # evs) = resolved evs"

fun unresolved :: "event list \<Rightarrow> string list" where
  "unresolved [] = []"
| "unresolved (Looked name r # evs) = (if r = None then name # unresolved evs else unresolved evs)"
| "unresolved (Ran av r # evs) = unresolved evs"

text \<open>
  The traces of a scan over a table, with its result: a manager whose lookup does not
  resolve contributes the lookup alone; one that resolves contributes the lookup and its
  install command, after which the scan goes on when the command failed and ends with
  success when it succeeded; the table exhausted, the result is the generic error.
\<close>

inductive scanned :: "packageManager list \<Rightarrow> event list \<Rightarrow> error option \<Rightarrow> bool" where
  exhausted: "scanned [] [] (Some NoPackageManager)"
| skipped: "scanned pms evs res \<Longrightarrow> scanned (pm # pms) (Looked (cmd pm) None # evs) res"
| failed: "scanned pms evs res \<Longrightarrow>
     scanned (pm # pms)
       (Looked (cmd pm) (Some path) # Ran (installCommand pm) (Some err, out) # evs) res"
| installed: "scanned (pm # pms)
       [Looked (cmd pm) (Some path), Ran (installCommand pm) (None, out)] None"

code_pred scanned .

definition readOnlyProbes :: "'w system \<Rightarrow> bool" where
  "readOnlyProbes sys = (\<forall>w. \<forall>av \<in> set probeCommands. snd (Run sys w av) = w)"

section \<open>External viewer resolver and connection descriptor codec (package spiceclient)\<close>

record Connection =
  Host :: string
  Port :: string
  Password :: string
  UnixPath :: string
  Audio :: bool

definition emptyConnection :: Connection where
  "emptyConnection = \<lparr>Host = [], Port = [], Password = [], UnixPath = [], Audio = False\<rparr>"

text \<open>The switch on \<open>runtime.GOOS\<close>; \<open>None\<close> is its default branch.\<close>

definition candidates :: "string \<Rightarrow> string list option" where
  "candidates goos =
     (if goos = ''darwin'' then Some [''remote-viewer'', ''spicy'']
      else if goos = ''linux'' then Some [''remote-viewer'', ''spicy'', ''virt-viewer'']
      else if goos = ''windows''
      then Some [''remote-viewer.exe'', ''spicy.exe'', ''virt-viewer.exe'']
      else None)"

fun findFirst :: "(string \<Rightarrow> string option) \<Rightarrow> string list \<Rightarrow> error + string" where
  "findFirst look [] = Inl NoViewerFound"
| "findFirst look (viewer # rest) =
     (case look viewer of Some path \<Rightarrow> Inr path | None \<Rightarrow> findFirst look rest)"

definition FindViewer :: "string \<Rightarrow> (string \<Rightarrow> string option) \<Rightarrow> error + string" where
  "FindViewer goos look =
     (case candidates goos of
        None \<Rightarrow> Inl (UnsupportedPlatform goos)
      | Some cs \<Rightarrow> findFirst look cs)"

definition buildSpiceURI :: "Connection \<Rightarrow> error + string" where
  "buildSpiceURI conn =
     (if UnixPath conn \<noteq> [] then Inr (''spice+unix://'' @ UnixPath conn)
      else if Host conn = [] \<or> Port conn = [] then Inl HostPortRequired
      else (let uri = ''spice://'' @ Host conn @ '':'' @ Port conn
            in if Password conn \<noteq> [] then Inr (uri @ ''?password='' @ Password conn)
               else Inr uri))"

text \<open>The body of the loop of \<open>GetConnectionInfo\<close> over the comma-separated parts.\<close>

definition parseOption :: "Connection \<Rightarrow> string \<Rightarrow> Connection" where
  "parseOption conn part =
     (if part = ''spice'' then conn
      else (let kv = SplitN part (CHR ''='') 2
            in if length kv \<noteq> 2 then conn
               else (let key = TrimSpace (kv ! 0); val = TrimSpace (kv ! 1)
                     in if key = ''port'' then conn\<lparr>Port := val\<rparr>
                        else if key = ''addr'' then conn\<lparr>Host := val\<rparr>
                        else if key = ''password'' then conn\<lparr>Password := val\<rparr>
                        else conn)))"

definition GetConnectionInfo :: "string \<Rightarrow> error + Connection" where
  "GetConnectionInfo displayString =
     (if HasPrefix displayString ''spice+unix://''
      then Inr (emptyConnection\<lparr>UnixPath := TrimPrefix displayString ''spice+unix://''\<rparr>)
      else if \<not> HasPrefix displayString ''spice''
      then Inl (InvalidDisplayString displayString)
      else Inr (foldl parseOption
                  (emptyConnection\<lparr>Host := ''127.0.0.1'', Port := ''5900''\<rparr>)
                  (Split displayString (CHR '',''))))"

section \<open>Host display session controller\<close>

text \<open>
  Modelled from the spec: the native window controller (\<open>StartGraphicApplication\<close>,
  \<open>BringWindowToFront\<close>, \<open>HasGUIWindow\<close> and the close callback) is missing from the
  sources; only its caller \<open>showGUIAction\<close> and a design note on \<open>RunGUI\<close> are there. The
  session states are those of section 3 of the specification, the two errors those of
  section 7, and the operations follow section 4.5.
\<close>

datatype DisplaySessionState = Uninitialized | Created | Visible | Hidden | Stopped

datatype SessionStateError = AlreadyStartedError | NotInitializedError

record SessionConfig =
  Width :: "int option"
  Height :: "int option"

record Controller =
  Session :: DisplaySessionState
  Dimensions :: "(int \<times> int) option"

text \<open>
  Modelled from the spec: the controller instance before \<open>Start\<close>, in state Uninitialized
  (the constructor of the controller is missing from the sources).
\<close>

definition NewController :: Controller where
  "NewController = \<lparr>Session = Uninitialized, Dimensions = None\<rparr>"

text \<open>
  Modelled from the spec: \<open>Start(config)\<close> (missing from the sources) is only legal from
  Uninitialized, constructs the session with the configured or default dimensions (1920
  by 1200 in the design note on \<open>RunGUI\<close>), and fails with AlreadyStartedError otherwise.
\<close>

definition Start :: "SessionConfig \<Rightarrow> Controller \<Rightarrow> SessionStateError + Controller" where
  "Start config c =
     (if Session c = Uninitialized
      then Inr \<lparr>Session = Created,
                Dimensions = Some (case Width config of None \<Rightarrow> 1920 | Some w \<Rightarrow> w,
                                   case Height config of None \<Rightarrow> 1200 | Some h \<Rightarrow> h)\<rparr>
      else Inl AlreadyStartedError)"

text \<open>
  Modelled from the spec: \<open>BringToForeground()\<close> (missing from the sources) is legal from
  Created, Visible or Hidden and leaves the window Visible; it fails with
  NotInitializedError from Uninitialized. The specification names no error for Stopped,
  where no session exists either; the model refuses it with the same error.
\<close>

definition BringToForeground :: "Controller \<Rightarrow> SessionStateError + Controller" where
  "BringToForeground c =
     (if Session c \<in> {Created, Visible, Hidden} then Inr (c\<lparr>Session := Visible\<rparr>)
      else Inl NotInitializedError)"

text \<open>
  Modelled from the spec: \<open>HasSession()\<close> (missing from the sources) is true for Created,
  Visible and Hidden, false for Uninitialized and Stopped.
\<close>

definition HasSession :: "Controller \<Rightarrow> bool" where
  "HasSession c = (Session c \<in> {Created, Visible, Hidden})"

text \<open>
  Modelled from the spec: the close transition (a callback of the framework, missing from
  the sources) goes unconditionally to Stopped.
\<close>

definition Close :: "Controller \<Rightarrow> Controller" where
  "Close c = c\<lparr>Session := Stopped\<rparr>"

text \<open>
  Modelled from the spec: the window events between creation and close (missing from the
  sources): show takes Created to Visible, hide takes Visible to Hidden, foreground is
  \<open>BringToForeground\<close>; an event that is not enabled in a state leaves it unchanged.
\<close>

datatype WindowEvent = ShowWindow | HideWindow | Foreground

fun windowEvent :: "Controller \<Rightarrow> WindowEvent \<Rightarrow> Controller" where
  "windowEvent c ShowWindow = (if Session c = Created then c\<lparr>Session := Visible\<rparr> else c)"
| "windowEvent c HideWindow = (if Session c = Visible then c\<lparr>Session := Hidden\<rparr> else c)"
| "windowEvent c Foreground = (case BringToForeground c of Inr c' \<Rightarrow> c' | Inl e \<Rightarrow> c)"

text \<open>
  \<open>RunGUI\<close> of the design note: bring the window to the front when it exists, create it
  otherwise.
\<close>

definition RunGUI :: "SessionConfig \<Rightarrow> Controller \<Rightarrow> SessionStateError + Controller" where
  "RunGUI config c = (if HasSession c then BringToForeground c else Start config c)"

section \<open>Vocabulary of the statements\<close>

text \<open>The three deficiency texts of \<open>buildErrorMessage\<close>, by name.\<close>

definition transportReason :: string where
  "transportReason = ''virtio console port not found (host SPICE not configured)''"

definition installedReason :: string where
  "installedReason = ''spice-vdagent package not installed''"

definition runningReason :: string where
  "runningReason = ''spice-vdagentd service not running''"

text \<open>
  What a display string gives for a key: a part other than the protocol token that holds
  an \<open>=\<close> is an option, its key the text before the first \<open>=\<close> and its value the text
  after it, both without surrounding white space; the value given for a key is that of
  the last option with this key.
\<close>

definition optionOf :: "string \<Rightarrow> (string \<times> string) option" where
  "optionOf part =
     (if part = ''spice'' \<or> CHR ''='' \<notin> set part then None
      else Some (TrimSpace (takeWhile (\<lambda>c. c \<noteq> CHR ''='') part),
                 TrimSpace (tl (dropWhile (\<lambda>c. c \<noteq> CHR ''='') part))))"

definition options :: "string \<Rightarrow> (string \<times> string) list" where
  "options displayString = List.map_filter optionOf (Split displayString (CHR '',''))"

definition givenValue :: "string \<Rightarrow> string \<Rightarrow> string option" where
  "givenValue key displayString = map_of (rev (options displayString)) key"

section \<open>A guest for concrete runs\<close>

text \<open>
  A small guest: the world is the pair (agent installed, agent running). \<open>vport\<close> says
  whether a virtio port device exists, \<open>managers\<close> lists the package managers on the
  search path and \<open>broken\<close> those whose install command fails.
\<close>

definition guest :: "bool \<Rightarrow> string list \<Rightarrow> string list \<Rightarrow> (bool \<times> bool) system" where
  "guest vport managers broken =
     \<lparr>ReadDir = (\<lambda>w dir. if dir = ''/dev''
                          then Some (if vport then [''null'', ''vport1p1''] else [''null''])
                          else None),
      Stat = (\<lambda>w path. False),
      LookPath = (\<lambda>w name.
         if name \<in> set managers then Some (''/usr/bin/'' @ name)
         else if name = ''spice-vdagentd'' \<and> fst w then Some ''/usr/sbin/spice-vdagentd''
         else None),
      Run = (\<lambda>w av.
         if av = [''systemctl'', ''is-active'', ''spice-vdagentd'']
         then (if snd w then ((None, ''active'' @ [CHR 0x0A]), w)
               else ((Some ''exit status 3'', ''inactive'' @ [CHR 0x0A]), w))
         else if av = [''systemctl'', ''enable'', ''spice-vdagentd''] then ((None, []), w)
         else if av = [''systemctl'', ''start'', ''spice-vdagentd'']
         then (if fst w then ((None, []), (True, True))
               else ((Some ''exit status 5'', ''Unit spice-vdagentd.service not found.''), w))
         else if av \<in> set (map installCommand packageManagers) \<and> hd av \<in> set managers
         then (if hd av \<in> set broken
               then ((Some ''exit status 100'', ''Unable to locate package spice-vdagent''), w)
               else ((None, []), (True, snd w)))
         else ((Some ''exit status 1'', []), w))\<rparr>"

section \<open>The detector\<close>

lemma Detect_status:
  "fst (DetectSpiceStatus sys st) =
     (let v = checkVirtioPort sys (fst st);
          i = fst (checkSpiceInstalled sys st);
          r = i \<and> fst (checkSpiceRunning sys (snd (checkSpiceInstalled sys st)));
          s = \<lparr>AgentInstalled = i, AgentRunning = r, VPortExists = v,
                ClipboardReady = v \<and> i \<and> r, ErrorMessage = []\<rparr>
      in if v \<and> i \<and> r then s else s\<lparr>ErrorMessage := buildErrorMessage s\<rparr>)"
  by (simp add: DetectSpiceStatus_def Let_def case_prod_beta)

lemma Detect_state:
  "snd (DetectSpiceStatus sys st) =
     (if fst (checkSpiceInstalled sys st)
      then snd (checkSpiceRunning sys (snd (checkSpiceInstalled sys st)))
      else snd (checkSpiceInstalled sys st))"
  by (simp add: DetectSpiceStatus_def Let_def case_prod_beta)

text \<open>
  The three sub-checks can come out in each of the eight ways: the small guest realises
  every combination.
\<close>

lemma subchecks_all_combinations:
  "\<forall>v i r. checkVirtioPort (guest v [] []) (i, r) = v
     \<and> fst (checkSpiceInstalled (guest v [] []) ((i, r), [])) = i
     \<and> fst (checkSpiceRunning (guest v [] []) ((i, r), [])) = r"
  by code_simp

text \<open>
  Claim C4. For every guest and every state, the field \<open>ClipboardReady\<close> of the status
  returned by \<open>DetectSpiceStatus\<close> is the conjunction of the three sub-checks: the virtio
  port check, the install check, and the running check (taken in the state the install
  check leaves behind). It is also the conjunction of the three fields that the status
  reports for them.
\<close>

theorem DetectSpiceStatus_ready_is_conjunction:
  "ClipboardReady (fst (DetectSpiceStatus sys st)) =
     (checkVirtioPort sys (fst st) \<and> fst (checkSpiceInstalled sys st)
      \<and> fst (checkSpiceRunning sys (snd (checkSpiceInstalled sys st))))
   \<and> ClipboardReady (fst (DetectSpiceStatus sys st)) =
     (VPortExists (fst (DetectSpiceStatus sys st))
      \<and> AgentInstalled (fst (DetectSpiceStatus sys st))
      \<and> AgentRunning (fst (DetectSpiceStatus sys st)))"
  by (simp add: Detect_status Let_def)

text \<open>
  Claim C10. In every status returned by \<open>DetectSpiceStatus\<close>, a running agent is an
  installed agent: \<open>AgentRunning\<close> is only set after \<open>AgentInstalled\<close> was found true.
\<close>

theorem DetectSpiceStatus_running_implies_installed:
  "AgentRunning (fst (DetectSpiceStatus sys st)) \<Longrightarrow>
   AgentInstalled (fst (DetectSpiceStatus sys st))"
  by (simp add: Detect_status Let_def split: if_splits)

theorem DetectSpiceStatus_running_implies_installed_witness:
  "AgentRunning (fst (DetectSpiceStatus (guest True [] []) ((True, True), [])))
   \<and> AgentInstalled (fst (DetectSpiceStatus (guest True [] []) ((True, True), [])))"
proof -
  have running: "AgentRunning (fst (DetectSpiceStatus (guest True [] []) ((True, True), [])))"
    by code_simp
  from DetectSpiceStatus_running_implies_installed [OF running] running
  show ?thesis by simp
qed

lemma buildErrorMessage_reasons:
  "buildErrorMessage status =
     (let rs = map snd (filter fst
                 [(\<not> VPortExists status, transportReason),
                  (\<not> AgentInstalled status, installedReason),
                  (AgentInstalled status \<and> \<not> AgentRunning status, runningReason)])
      in if rs = [] then [] else ''SPICE clipboard not ready: '' @ Join rs ''; '')"
  by (simp add: buildErrorMessage_def transportReason_def installedReason_def runningReason_def)

lemma message_mentions:
  "\<forall>v i r.
     (Contains (if v \<and> i \<and> r then []
                else buildErrorMessage \<lparr>AgentInstalled = i, AgentRunning = i \<and> r, VPortExists = v,
                        ClipboardReady = v \<and> i \<and> r, ErrorMessage = []\<rparr>) transportReason
        \<longleftrightarrow> \<not> v)
   \<and> (Contains (if v \<and> i \<and> r then []
                else buildErrorMessage \<lparr>AgentInstalled = i, AgentRunning = i \<and> r, VPortExists = v,
                        ClipboardReady = v \<and> i \<and> r, ErrorMessage = []\<rparr>) installedReason
        \<longleftrightarrow> \<not> i)
   \<and> (Contains (if v \<and> i \<and> r then []
                else buildErrorMessage \<lparr>AgentInstalled = i, AgentRunning = i \<and> r, VPortExists = v,
                        ClipboardReady = v \<and> i \<and> r, ErrorMessage = []\<rparr>) runningReason
        \<longleftrightarrow> i \<and> \<not> r)"
  by code_simp

text \<open>
  Claim C2, as amended. For every detection result the error message is empty exactly
  when the status is ready. Otherwise it is the fixed prefix followed by the deficiencies
  in the order transport, installed, running, joined by a semicolon, where the transport
  deficiency is listed when the port is absent, the installed deficiency when the agent
  is not installed, and the running deficiency only when the agent is installed and not
  running; the message contains each of the three texts under exactly that condition.
  With the transport present and the agent not installed the message names the installed
  deficiency alone.
\<close>

theorem ErrorMessage_lists_failing_checks:
  "(ErrorMessage (fst (DetectSpiceStatus sys st)) = []
      \<longleftrightarrow> ClipboardReady (fst (DetectSpiceStatus sys st)))
   \<and> ErrorMessage (fst (DetectSpiceStatus sys st)) =
       (if ClipboardReady (fst (DetectSpiceStatus sys st)) then []
        else ''SPICE clipboard not ready: '' @
             Join (map snd (filter fst
                [(\<not> VPortExists (fst (DetectSpiceStatus sys st)), transportReason),
                 (\<not> AgentInstalled (fst (DetectSpiceStatus sys st)), installedReason),
                 (AgentInstalled (fst (DetectSpiceStatus sys st))
                    \<and> \<not> AgentRunning (fst (DetectSpiceStatus sys st)), runningReason)]))
               ''; '')
   \<and> (Contains (ErrorMessage (fst (DetectSpiceStatus sys st))) transportReason
        \<longleftrightarrow> \<not> VPortExists (fst (DetectSpiceStatus sys st)))
   \<and> (Contains (ErrorMessage (fst (DetectSpiceStatus sys st))) installedReason
        \<longleftrightarrow> \<not> AgentInstalled (fst (DetectSpiceStatus sys st)))
   \<and> (Contains (ErrorMessage (fst (DetectSpiceStatus sys st))) runningReason
        \<longleftrightarrow> AgentInstalled (fst (DetectSpiceStatus sys st))
            \<and> \<not> AgentRunning (fst (DetectSpiceStatus sys st)))"
proof -
  let ?v = "checkVirtioPort sys (fst st)"
  let ?i = "fst (checkSpiceInstalled sys st)"
  let ?r = "fst (checkSpiceRunning sys (snd (checkSpiceInstalled sys st)))"
  let ?status = "fst (DetectSpiceStatus sys st)"
  let ?msg = "if ?v \<and> ?i \<and> ?r then []
     else buildErrorMessage \<lparr>AgentInstalled = ?i, AgentRunning = ?i \<and> ?r, VPortExists = ?v,
            ClipboardReady = ?v \<and> ?i \<and> ?r, ErrorMessage = []\<rparr>"
  have fields: "VPortExists ?status = ?v" "AgentInstalled ?status = ?i"
    "AgentRunning ?status = (?i \<and> ?r)" "ErrorMessage ?status = ?msg"
    by (simp_all add: Detect_status Let_def)
  from message_mentions have m:
    "Contains ?msg transportReason \<longleftrightarrow> \<not> ?v"
    "Contains ?msg installedReason \<longleftrightarrow> \<not> ?i"
    "Contains ?msg runningReason \<longleftrightarrow> ?i \<and> \<not> ?r"
    by blast+
  have first: "(ErrorMessage ?status = [] \<longleftrightarrow> ClipboardReady ?status)
   \<and> ErrorMessage ?status =
       (if ClipboardReady ?status then []
        else ''SPICE clipboard not ready: '' @
             Join (map snd (filter fst
                [(\<not> VPortExists ?status, transportReason),
                 (\<not> AgentInstalled ?status, installedReason),
                 (AgentInstalled ?status \<and> \<not> AgentRunning ?status, runningReason)]))
               ''; '')"
    by (simp add: Detect_status Let_def buildErrorMessage_reasons)
  from m have "(Contains (ErrorMessage ?status) transportReason \<longleftrightarrow> \<not> VPortExists ?status)
   \<and> (Contains (ErrorMessage ?status) installedReason \<longleftrightarrow> \<not> AgentInstalled ?status)
   \<and> (Contains (ErrorMessage ?status) runningReason
        \<longleftrightarrow> AgentInstalled ?status \<and> \<not> AgentRunning ?status)"
    unfolding fields by blast
  with first show ?thesis by blast
qed

theorem ErrorMessage_lists_failing_checks_witness:
  "ErrorMessage (fst (DetectSpiceStatus (guest False [] []) ((True, False), []))) =
     ''SPICE clipboard not ready: virtio console port not found (host SPICE not configured); spice-vdagentd service not running''"
proof -
  let ?status = "fst (DetectSpiceStatus (guest False [] []) ((True, False), []))"
  have fields: "\<not> ClipboardReady ?status" "\<not> VPortExists ?status" "AgentInstalled ?status"
    "\<not> AgentRunning ?status"
    by code_simp+
  note all = ErrorMessage_lists_failing_checks [of "guest False [] []" "((True, False), [])"]
  from conjunct1 [OF conjunct2 [OF all]] fields
  show ?thesis
    by (simp add: transportReason_def runningReason_def)
qed

text \<open>
  The claim as stated fails: with the transport present, the agent not installed and
  not running, the message names the missing package only and says nothing of the
  service.
\<close>

theorem ErrorMessage_running_counterexample:
  "VPortExists (fst (DetectSpiceStatus (guest True [] []) ((False, False), [])))
   \<and> \<not> AgentInstalled (fst (DetectSpiceStatus (guest True [] []) ((False, False), [])))
   \<and> \<not> AgentRunning (fst (DetectSpiceStatus (guest True [] []) ((False, False), [])))
   \<and> ErrorMessage (fst (DetectSpiceStatus (guest True [] []) ((False, False), []))) =
        ''SPICE clipboard not ready: spice-vdagent package not installed''
   \<and> \<not> Contains (ErrorMessage (fst (DetectSpiceStatus (guest True [] []) ((False, False), []))))
          ''not running''"
  by code_simp

section \<open>The supervisor\<close>

lemma lookPath_simps:
  "fst (lookPath sys name st) = LookPath sys (fst st) name"
  "fst (snd (lookPath sys name st)) = fst st"
  "snd (snd (lookPath sys name st)) = snd st @ [Looked name (LookPath sys (fst st) name)]"
  by (simp_all add: lookPath_def Let_def)

lemma exec_simps:
  "fst (exec sys av st) = fst (Run sys (fst st) av)"
  "fst (snd (exec sys av st)) = snd (Run sys (fst st) av)"
  "snd (snd (exec sys av st)) = snd st @ [Ran av (fst (Run sys (fst st) av))]"
  by (simp_all add: exec_def case_prod_beta)

lemma probes_not_repairs: "isProbe e \<Longrightarrow> \<not> isRepair e"
  by (cases e) (auto simp: probeCommands_def repairCommands_def packageManagers_def installCommand_def)

lemma list_all_probe_no_repair: "list_all isProbe evs \<Longrightarrow> \<not> list_ex isRepair evs"
  by (induction evs) (auto dest: probes_not_repairs)

lemma checkSpiceInstalled_trace:
  "\<exists>evs. snd (snd (checkSpiceInstalled sys st)) = snd st @ evs \<and> list_all isProbe evs"
  by (auto simp: checkSpiceInstalled_def lookPath_def exec_def Let_def probeCommands_def
      split: prod.splits option.splits)

lemma checkSpiceRunning_trace:
  "\<exists>evs. snd (snd (checkSpiceRunning sys st)) = snd st @ evs \<and> list_all isProbe evs"
  by (auto simp: checkSpiceRunning_def exec_def Let_def probeCommands_def
      split: prod.splits option.splits)

lemma Detect_trace:
  "\<exists>evs. snd (snd (DetectSpiceStatus sys st)) = snd st @ evs \<and> list_all isProbe evs"
proof -
  obtain e1 where e1: "snd (snd (checkSpiceInstalled sys st)) = snd st @ e1" "list_all isProbe e1"
    using checkSpiceInstalled_trace by blast
  obtain e2 where e2: "snd (snd (checkSpiceRunning sys (snd (checkSpiceInstalled sys st))))
      = snd (snd (checkSpiceInstalled sys st)) @ e2" "list_all isProbe e2"
    using checkSpiceRunning_trace by blast
  show ?thesis
  proof (cases "fst (checkSpiceInstalled sys st)")
    case True
    with e1 e2 have "snd (snd (DetectSpiceStatus sys st)) = snd st @ (e1 @ e2)"
      by (simp add: Detect_state)
    moreover from e1 e2 have "list_all isProbe (e1 @ e2)" by simp
    ultimately show ?thesis by blast
  next
    case False
    with e1 show ?thesis by (auto simp: Detect_state)
  qed
qed

lemma Ensure_ready:
  "ClipboardReady (fst (DetectSpiceStatus sys st)) \<Longrightarrow>
   EnsureSpiceAgent sys st = (None, snd (DetectSpiceStatus sys st))"
  by (simp add: EnsureSpiceAgent_def case_prod_beta)

lemma Ensure_no_port:
  "\<not> checkVirtioPort sys (fst st) \<Longrightarrow>
   EnsureSpiceAgent sys st = (Some VirtioPortNotAvailable, snd (DetectSpiceStatus sys st))"
  by (simp add: EnsureSpiceAgent_def case_prod_beta Detect_status Let_def)

text \<open>
  Claim C7. Whenever the virtio port check fails, \<open>EnsureSpiceAgent\<close> returns the
  transport-absent error, whatever the install and running checks say. It leaves the
  guest in the state the detector left it in, and the events it adds to the trace are
  the detector's lookups and queries only: no install command, no enable and no start
  request.
\<close>

theorem EnsureSpiceAgent_transport_absent:
  assumes "\<not> checkVirtioPort sys (fst st)"
  shows "fst (EnsureSpiceAgent sys st) = Some VirtioPortNotAvailable
    \<and> snd (EnsureSpiceAgent sys st) = snd (DetectSpiceStatus sys st)
    \<and> (\<exists>evs. snd (snd (EnsureSpiceAgent sys st)) = snd st @ evs
          \<and> list_all isProbe evs \<and> \<not> list_ex isRepair evs)"
  using assms Detect_trace [of sys st]
  by (auto simp: Ensure_no_port dest: list_all_probe_no_repair)

theorem EnsureSpiceAgent_transport_absent_witness:
  "\<not> checkVirtioPort (guest False [''apt-get''] []) (fst ((False, False), []))
   \<and> fst (EnsureSpiceAgent (guest False [''apt-get''] []) ((False, False), []))
       = Some VirtioPortNotAvailable
   \<and> snd (EnsureSpiceAgent (guest False [''apt-get''] []) ((False, False), []))
       = snd (DetectSpiceStatus (guest False [''apt-get''] []) ((False, False), []))"
proof -
  have absent: "\<not> checkVirtioPort (guest False [''apt-get''] []) (fst ((False, False), []))"
    by code_simp
  from EnsureSpiceAgent_transport_absent [OF absent] absent show ?thesis by simp
qed

lemma checkSpiceInstalled_world:
  "fst st = fst st' \<Longrightarrow>
   fst (checkSpiceInstalled sys st) = fst (checkSpiceInstalled sys st')
   \<and> fst (snd (checkSpiceInstalled sys st)) = fst (snd (checkSpiceInstalled sys st'))"
  by (auto simp: checkSpiceInstalled_def lookPath_def exec_def Let_def
      split: prod.splits option.splits)

lemma checkSpiceRunning_world:
  "fst st = fst st' \<Longrightarrow>
   fst (checkSpiceRunning sys st) = fst (checkSpiceRunning sys st')
   \<and> fst (snd (checkSpiceRunning sys st)) = fst (snd (checkSpiceRunning sys st'))"
  by (auto simp: checkSpiceRunning_def exec_def Let_def
      split: prod.splits option.splits)

lemma Detect_world:
  assumes "fst st = fst st'"
  shows "fst (DetectSpiceStatus sys st) = fst (DetectSpiceStatus sys st')
   \<and> fst (snd (DetectSpiceStatus sys st)) = fst (snd (DetectSpiceStatus sys st'))"
proof -
  from checkSpiceInstalled_world [OF assms, of sys]
  have i: "fst (checkSpiceInstalled sys st) = fst (checkSpiceInstalled sys st')"
    and w: "fst (snd (checkSpiceInstalled sys st)) = fst (snd (checkSpiceInstalled sys st'))"
    by simp_all
  from checkSpiceRunning_world [OF w, of sys]
  have r: "fst (checkSpiceRunning sys (snd (checkSpiceInstalled sys st)))
         = fst (checkSpiceRunning sys (snd (checkSpiceInstalled sys st')))"
    and w2: "fst (snd (checkSpiceRunning sys (snd (checkSpiceInstalled sys st))))
         = fst (snd (checkSpiceRunning sys (snd (checkSpiceInstalled sys st'))))"
    by simp_all
  show ?thesis
    using assms i w r w2 by (simp add: Detect_status Detect_state Let_def)
qed

lemma exec_readOnly:
  "readOnlyProbes sys \<Longrightarrow> av \<in> set probeCommands \<Longrightarrow> fst (snd (exec sys av st)) = fst st"
  by (simp add: exec_simps readOnlyProbes_def)

lemma probeCommands_mem:
  "[''dpkg'', ''-l'', ''spice-vdagent''] \<in> set probeCommands"
  "[''rpm'', ''-q'', ''spice-vdagent''] \<in> set probeCommands"
  "[''systemctl'', ''is-active'', ''spice-vdagentd''] \<in> set probeCommands"
  "[''pgrep'', ''-x'', ''spice-vdagentd''] \<in> set probeCommands"
  by (simp_all add: probeCommands_def)

lemma checkSpiceInstalled_readOnly:
  assumes ro: "readOnlyProbes sys"
  shows "fst (snd (checkSpiceInstalled sys st)) = fst st"
proof -
  define st1 where "st1 = snd (lookPath sys ''spice-vdagentd'' st)"
  define st2 where "st2 = snd (exec sys [''dpkg'', ''-l'', ''spice-vdagent''] st1)"
  define st3 where "st3 = snd (exec sys [''rpm'', ''-q'', ''spice-vdagent''] st2)"
  have w1: "fst st1 = fst st" by (simp add: st1_def lookPath_simps)
  have w2: "fst st2 = fst st1" by (simp add: st2_def exec_readOnly [OF ro probeCommands_mem(1)])
  have w3: "fst st3 = fst st2" by (simp add: st3_def exec_readOnly [OF ro probeCommands_mem(2)])
  have "snd (checkSpiceInstalled sys st) = st1 \<or> snd (checkSpiceInstalled sys st) = st2
      \<or> snd (checkSpiceInstalled sys st) = st3"
    by (auto simp: checkSpiceInstalled_def st1_def st2_def st3_def
        split: prod.splits option.splits)
  with w1 w2 w3 show ?thesis by auto
qed

lemma checkSpiceRunning_readOnly:
  assumes ro: "readOnlyProbes sys"
  shows "fst (snd (checkSpiceRunning sys st)) = fst st"
proof -
  define st1 where "st1 = snd (exec sys [''systemctl'', ''is-active'', ''spice-vdagentd''] st)"
  define st2 where "st2 = snd (exec sys [''pgrep'', ''-x'', ''spice-vdagentd''] st1)"
  have w1: "fst st1 = fst st" by (simp add: st1_def exec_readOnly [OF ro probeCommands_mem(3)])
  have w2: "fst st2 = fst st1" by (simp add: st2_def exec_readOnly [OF ro probeCommands_mem(4)])
  have "snd (checkSpiceRunning sys st) = st1 \<or> snd (checkSpiceRunning sys st) = st2"
    by (auto simp: checkSpiceRunning_def st1_def st2_def split: prod.splits option.splits)
  with w1 w2 show ?thesis by auto
qed

lemma Detect_readOnly:
  "readOnlyProbes sys \<Longrightarrow> fst (snd (DetectSpiceStatus sys st)) = fst st"
  by (simp add: Detect_state checkSpiceInstalled_readOnly checkSpiceRunning_readOnly)

lemma guest_readOnly: "readOnlyProbes (guest vport managers broken)"
  by (simp add: readOnlyProbes_def guest_def probeCommands_def installCommand_def
      packageManagers_def)

text \<open>
  Claim C8. Whenever the detector reports ready, \<open>EnsureSpiceAgent\<close> returns success and
  does nothing beyond the detector's own lookups and queries: no install command, no
  enable and no start request is run. When the query commands leave the guest unchanged,
  the guest is the same afterwards, and a second call succeeds again, changes nothing and
  runs no repair action either.
\<close>

theorem EnsureSpiceAgent_idempotent:
  assumes ready: "ClipboardReady (fst (DetectSpiceStatus sys st))"
  shows "fst (EnsureSpiceAgent sys st) = None
    \<and> snd (EnsureSpiceAgent sys st) = snd (DetectSpiceStatus sys st)
    \<and> (\<exists>evs. snd (snd (EnsureSpiceAgent sys st)) = snd st @ evs
          \<and> list_all isProbe evs \<and> \<not> list_ex isRepair evs)
    \<and> (readOnlyProbes sys \<longrightarrow>
          fst (snd (EnsureSpiceAgent sys st)) = fst st
        \<and> fst (EnsureSpiceAgent sys (snd (EnsureSpiceAgent sys st))) = None
        \<and> fst (snd (EnsureSpiceAgent sys (snd (EnsureSpiceAgent sys st)))) = fst st
        \<and> (\<exists>evs. snd (snd (EnsureSpiceAgent sys (snd (EnsureSpiceAgent sys st))))
                   = snd (snd (EnsureSpiceAgent sys st)) @ evs
              \<and> list_all isProbe evs \<and> \<not> list_ex isRepair evs))"
proof -
  let ?st1 = "snd (DetectSpiceStatus sys st)"
  have first: "EnsureSpiceAgent sys st = (None, ?st1)"
    using ready by (rule Ensure_ready)
  have tr1: "\<exists>evs. snd ?st1 = snd st @ evs \<and> list_all isProbe evs \<and> \<not> list_ex isRepair evs"
    using Detect_trace [of sys st] by (auto dest: list_all_probe_no_repair)
  have again: "fst (snd (EnsureSpiceAgent sys st)) = fst st
        \<and> fst (EnsureSpiceAgent sys (snd (EnsureSpiceAgent sys st))) = None
        \<and> fst (snd (EnsureSpiceAgent sys (snd (EnsureSpiceAgent sys st)))) = fst st
        \<and> (\<exists>evs. snd (snd (EnsureSpiceAgent sys (snd (EnsureSpiceAgent sys st))))
                   = snd (snd (EnsureSpiceAgent sys st)) @ evs
              \<and> list_all isProbe evs \<and> \<not> list_ex isRepair evs)"
    if ro: "readOnlyProbes sys"
  proof -
    have w: "fst ?st1 = fst st" using ro by (rule Detect_readOnly)
    from Detect_world [OF w, of sys]
    have same: "fst (DetectSpiceStatus sys ?st1) = fst (DetectSpiceStatus sys st)" by simp
    with ready have ready2: "ClipboardReady (fst (DetectSpiceStatus sys ?st1))" by simp
    have second: "EnsureSpiceAgent sys ?st1 = (None, snd (DetectSpiceStatus sys ?st1))"
      using ready2 by (rule Ensure_ready)
    have w2: "fst (snd (DetectSpiceStatus sys ?st1)) = fst ?st1" using ro by (rule Detect_readOnly)
    have tr2: "\<exists>evs. snd (snd (DetectSpiceStatus sys ?st1)) = snd ?st1 @ evs
         \<and> list_all isProbe evs \<and> \<not> list_ex isRepair evs"
      using Detect_trace [of sys ?st1] by (auto dest: list_all_probe_no_repair)
    show ?thesis using first second w w2 tr2 by simp
  qed
  show ?thesis using first tr1 again by simp
qed

theorem EnsureSpiceAgent_idempotent_witness:
  "ClipboardReady (fst (DetectSpiceStatus (guest True [''apt-get''] []) ((True, True), [])))
   \<and> readOnlyProbes (guest True [''apt-get''] [])
   \<and> fst (EnsureSpiceAgent (guest True [''apt-get''] []) ((True, True), [])) = None
   \<and> fst (EnsureSpiceAgent (guest True [''apt-get''] [])
            (snd (EnsureSpiceAgent (guest True [''apt-get''] []) ((True, True), [])))) = None
   \<and> fst (snd (EnsureSpiceAgent (guest True [''apt-get''] [])
            (snd (EnsureSpiceAgent (guest True [''apt-get''] []) ((True, True), [])))))
       = (True, True)"
proof -
  have ready: "ClipboardReady (fst (DetectSpiceStatus (guest True [''apt-get''] []) ((True, True), [])))"
    by code_simp
  have ro: "readOnlyProbes (guest True [''apt-get''] [])" by (rule guest_readOnly)
  from EnsureSpiceAgent_idempotent [OF ready] ro ready show ?thesis
    unfolding fst_conv by blast
qed

section \<open>The install scan\<close>

lemma installLoop_Cons:
  "installLoop sys (pm # pms) st =
     (let st1 = snd (lookPath sys (cmd pm) st)
      in if LookPath sys (fst st) (cmd pm) = None then installLoop sys pms st1
         else (let st2 = snd (exec sys (installCommand pm) st1)
               in if fst (fst (Run sys (fst st) (installCommand pm))) = None then (None, st2)
                  else installLoop sys pms st2))"
  by (auto simp: lookPath_def exec_def Let_def split: prod.splits option.splits)

lemma installLoop_scan:
  "\<exists>evs. snd (snd (installLoop sys pms st)) = snd st @ evs
     \<and> subseq (map fst (attempts evs)) (map installCommand pms)
     \<and> (case fst (installLoop sys pms st) of
          None \<Rightarrow> attempts evs \<noteq> [] \<and> fst (snd (last (attempts evs))) = None
             \<and> list_all (\<lambda>a. fst (snd a) \<noteq> None) (butlast (attempts evs))
        | Some e \<Rightarrow> e = NoPackageManager
             \<and> list_all (\<lambda>a. fst (snd a) \<noteq> None) (attempts evs)
             \<and> list_all (\<lambda>pm. Looked (cmd pm) None \<in> set evs
                               \<or> installCommand pm \<in> fst ` set (attempts evs)) pms)"
proof (induction pms arbitrary: st)
  case Nil
  show ?case by simp
next
  case (Cons pm pms)
  let ?l = "LookPath sys (fst st) (cmd pm)"
  let ?st1 = "snd (lookPath sys (cmd pm) st)"
  show ?case
  proof (cases ?l)
    case None
    then have step: "installLoop sys (pm # pms) st = installLoop sys pms ?st1"
      by (simp add: installLoop_Cons Let_def del: installLoop.simps)
    from Cons.IH [of ?st1] obtain evs where
      tr: "snd (snd (installLoop sys pms ?st1)) = snd ?st1 @ evs"
      and sub: "subseq (map fst (attempts evs)) (map installCommand pms)"
      and res: "(case fst (installLoop sys pms ?st1) of
          None \<Rightarrow> attempts evs \<noteq> [] \<and> fst (snd (last (attempts evs))) = None
             \<and> list_all (\<lambda>a. fst (snd a) \<noteq> None) (butlast (attempts evs))
        | Some e \<Rightarrow> e = NoPackageManager
             \<and> list_all (\<lambda>a. fst (snd a) \<noteq> None) (attempts evs)
             \<and> list_all (\<lambda>pm. Looked (cmd pm) None \<in> set evs
                               \<or> installCommand pm \<in> fst ` set (attempts evs)) pms)"
      by blast
    let ?evs = "Looked (cmd pm) None # evs"
    have 1: "snd (snd (installLoop sys (pm # pms) st)) = snd st @ ?evs"
      unfolding step using tr None by (simp add: lookPath_simps)
    have 2: "subseq (map fst (attempts ?evs)) (map installCommand (pm # pms))"
      using sub by (simp add: list_emb_Cons)
    have 3: "(case fst (installLoop sys (pm # pms) st) of
          None \<Rightarrow> attempts ?evs \<noteq> [] \<and> fst (snd (last (attempts ?evs))) = None
             \<and> list_all (\<lambda>a. fst (snd a) \<noteq> None) (butlast (attempts ?evs))
        | Some e \<Rightarrow> e = NoPackageManager
             \<and> list_all (\<lambda>a. fst (snd a) \<noteq> None) (attempts ?evs)
             \<and> list_all (\<lambda>pm. Looked (cmd pm) None \<in> set ?evs
                               \<or> installCommand pm \<in> fst ` set (attempts ?evs)) (pm # pms))"
      unfolding step using res by (auto simp: list_all_iff split: option.splits)
    from 1 2 3 show ?thesis by blast
  next
    case (Some path)
    let ?r = "fst (Run sys (fst st) (installCommand pm))"
    let ?st2 = "snd (exec sys (installCommand pm) ?st1)"
    have r: "fst (exec sys (installCommand pm) ?st1) = ?r"
      by (simp add: exec_simps lookPath_simps)
    have tr2: "snd ?st2 = snd st @ [Looked (cmd pm) (Some path), Ran (installCommand pm) ?r]"
      using Some by (simp add: exec_simps lookPath_simps)
    show ?thesis
    proof (cases "fst ?r")
      case None
      then have step: "installLoop sys (pm # pms) st = (None, ?st2)"
        using Some by (simp add: installLoop_Cons Let_def del: installLoop.simps)
      let ?evs = "[Looked (cmd pm) (Some path), Ran (installCommand pm) ?r]"
      have 1: "snd (snd (installLoop sys (pm # pms) st)) = snd st @ ?evs"
        unfolding step using tr2 by simp
      have 2: "subseq (map fst (attempts ?evs)) (map installCommand (pm # pms))"
        by simp
      have 3: "(case fst (installLoop sys (pm # pms) st) of
          None \<Rightarrow> attempts ?evs \<noteq> [] \<and> fst (snd (last (attempts ?evs))) = None
             \<and> list_all (\<lambda>a. fst (snd a) \<noteq> None) (butlast (attempts ?evs))
        | Some e \<Rightarrow> e = NoPackageManager
             \<and> list_all (\<lambda>a. fst (snd a) \<noteq> None) (attempts ?evs)
             \<and> list_all (\<lambda>pm. Looked (cmd pm) None \<in> set ?evs
                               \<or> installCommand pm \<in> fst ` set (attempts ?evs)) (pm # pms))"
        unfolding step using None by simp
      from 1 2 3 show ?thesis by blast
    next
      case (Some err)
      then have step: "installLoop sys (pm # pms) st = installLoop sys pms ?st2"
        using \<open>?l = Some path\<close>
        by (simp add: installLoop_Cons Let_def del: installLoop.simps)
      from Cons.IH [of ?st2] obtain evs where
        tr: "snd (snd (installLoop sys pms ?st2)) = snd ?st2 @ evs"
        and sub: "subseq (map fst (attempts evs)) (map installCommand pms)"
        and res: "(case fst (installLoop sys pms ?st2) of
          None \<Rightarrow> attempts evs \<noteq> [] \<and> fst (snd (last (attempts evs))) = None
             \<and> list_all (\<lambda>a. fst (snd a) \<noteq> None) (butlast (attempts evs))
        | Some e \<Rightarrow> e = NoPackageManager
             \<and> list_all (\<lambda>a. fst (snd a) \<noteq> None) (attempts evs)
             \<and> list_all (\<lambda>pm. Looked (cmd pm) None \<in> set evs
                               \<or> installCommand pm \<in> fst ` set (attempts evs)) pms)"
        by blast
      let ?evs = "Looked (cmd pm) (Some path) # Ran (installCommand pm) ?r # evs"
      have 1: "snd (snd (installLoop sys (pm # pms) st)) = snd st @ ?evs"
        unfolding step using tr tr2 by simp
      have 2: "subseq (map fst (attempts ?evs)) (map installCommand (pm # pms))"
        using sub by simp
      have 3: "(case fst (installLoop sys (pm # pms) st) of
          None \<Rightarrow> attempts ?evs \<noteq> [] \<and> fst (snd (last (attempts ?evs))) = None
             \<and> list_all (\<lambda>a. fst (snd a) \<noteq> None) (butlast (attempts ?evs))
        | Some e \<Rightarrow> e = NoPackageManager
             \<and> list_all (\<lambda>a. fst (snd a) \<noteq> None) (attempts ?evs)
             \<and> list_all (\<lambda>pm. Looked (cmd pm) None \<in> set ?evs
                               \<or> installCommand pm \<in> fst ` set (attempts ?evs)) (pm # pms))"
        unfolding step using res Some by (auto simp: list_all_iff split: option.splits)
      from 1 2 3 show ?thesis by blast
    qed
  qed
qed

lemma installLoop_scanned:
  "\<exists>evs. snd (snd (installLoop sys pms st)) = snd st @ evs
         \<and> scanned pms evs (fst (installLoop sys pms st))"
proof (induction pms arbitrary: st)
  case Nil
  show ?case by (simp add: scanned.exhausted)
next
  case (Cons pm pms)
  let ?st1 = "snd (lookPath sys (cmd pm) st)"
  let ?r = "fst (Run sys (fst st) (installCommand pm))"
  let ?st2 = "snd (exec sys (installCommand pm) ?st1)"
  show ?case
  proof (cases "LookPath sys (fst st) (cmd pm)")
    case None
    then have step: "installLoop sys (pm # pms) st = installLoop sys pms ?st1"
      by (simp add: installLoop_Cons Let_def del: installLoop.simps)
    from Cons.IH [of ?st1] obtain evs where
      tr: "snd (snd (installLoop sys pms ?st1)) = snd ?st1 @ evs"
      and sc: "scanned pms evs (fst (installLoop sys pms ?st1))" by blast
    have "snd (snd (installLoop sys (pm # pms) st)) = snd st @ (Looked (cmd pm) None # evs)"
      unfolding step using tr None by (simp add: lookPath_simps)
    moreover have "scanned (pm # pms) (Looked (cmd pm) None # evs)
        (fst (installLoop sys (pm # pms) st))"
      unfolding step using sc by (rule scanned.skipped)
    ultimately show ?thesis by blast
  next
    case (Some path)
    have tr2: "snd ?st2 = snd st @ [Looked (cmd pm) (Some path), Ran (installCommand pm) ?r]"
      using Some by (simp add: exec_simps lookPath_simps)
    obtain e out where r: "?r = (e, out)" by (cases ?r)
    show ?thesis
    proof (cases e)
      case None
      with r Some have step: "installLoop sys (pm # pms) st = (None, ?st2)"
        by (simp add: installLoop_Cons Let_def del: installLoop.simps)
      have "snd (snd (installLoop sys (pm # pms) st))
          = snd st @ [Looked (cmd pm) (Some path), Ran (installCommand pm) (None, out)]"
        unfolding step using tr2 r None by simp
      moreover have "scanned (pm # pms)
          [Looked (cmd pm) (Some path), Ran (installCommand pm) (None, out)]
          (fst (installLoop sys (pm # pms) st))"
        unfolding step by (simp add: scanned.installed)
      ultimately show ?thesis by blast
    next
      case (Some err)
      with r \<open>LookPath sys (fst st) (cmd pm) = Some path\<close>
      have step: "installLoop sys (pm # pms) st = installLoop sys pms ?st2"
        by (simp add: installLoop_Cons Let_def del: installLoop.simps)
      from Cons.IH [of ?st2] obtain evs where
        tr: "snd (snd (installLoop sys pms ?st2)) = snd ?st2 @ evs"
        and sc: "scanned pms evs (fst (installLoop sys pms ?st2))" by blast
      have "snd (snd (installLoop sys (pm # pms) st))
          = snd st @ (Looked (cmd pm) (Some path) # Ran (installCommand pm) (Some err, out) # evs)"
        unfolding step using tr tr2 r Some by simp
      moreover have "scanned (pm # pms)
          (Looked (cmd pm) (Some path) # Ran (installCommand pm) (Some err, out) # evs)
          (fst (installLoop sys (pm # pms) st))"
        unfolding step using sc by (rule scanned.failed)
      ultimately show ?thesis by blast
    qed
  qed
qed

lemma installCommand_cmd: "installCommand p = installCommand q \<Longrightarrow> cmd p = cmd q"
  by (simp add: installCommand_def)

lemma scanned_names:
  "scanned pms evs res \<Longrightarrow>
     fst ` set (attempts evs) \<subseteq> installCommand ` set pms
     \<and> set (resolved evs) \<subseteq> cmd ` set pms
     \<and> set (unresolved evs) \<subseteq> cmd ` set pms"
  by (induction rule: scanned.induct) auto

lemma scanned_probed:
  "scanned pms evs res \<Longrightarrow> prefix (probed evs) (map cmd pms)"
  by (induction rule: scanned.induct) auto

lemma scanned_attempted_iff_resolved:
  "scanned pms evs res \<Longrightarrow> distinct (map cmd pms) \<Longrightarrow> pm \<in> set pms \<Longrightarrow>
     (installCommand pm \<in> fst ` set (attempts evs) \<longleftrightarrow> cmd pm \<in> set (resolved evs))"
proof (induction arbitrary: pm rule: scanned.induct)
  case exhausted
  then show ?case by simp
next
  case (skipped pms evs res p)
  from skipped.hyps have names: "fst ` set (attempts evs) \<subseteq> installCommand ` set pms"
    "set (resolved evs) \<subseteq> cmd ` set pms" by (simp_all add: scanned_names)
  from skipped.prems have d: "cmd p \<notin> cmd ` set pms" "distinct (map cmd pms)" by simp_all
  show ?case
  proof (cases "pm \<in> set pms")
    case True
    with skipped.IH d show ?thesis by simp
  next
    case False
    with skipped.prems have eq: "pm = p" by simp
    have "installCommand p \<notin> fst ` set (attempts evs)"
    proof
      assume "installCommand p \<in> fst ` set (attempts evs)"
      with names obtain q where "q \<in> set pms" "installCommand p = installCommand q" by blast
      with d show False by (auto dest: installCommand_cmd)
    qed
    moreover from names d have "cmd p \<notin> set (resolved evs)" by blast
    ultimately show ?thesis using eq by simp
  qed
next
  case (failed pms evs res p path err out)
  from failed.prems have d: "cmd p \<notin> cmd ` set pms" "distinct (map cmd pms)" by simp_all
  show ?case
  proof (cases "pm \<in> set pms")
    case True
    then have "cmd pm \<in> cmd ` set pms" by (rule imageI)
    with d have "cmd pm \<noteq> cmd p" by auto
    then have "installCommand pm \<noteq> installCommand p" by (auto dest: installCommand_cmd)
    with True failed.IH d \<open>cmd pm \<noteq> cmd p\<close> show ?thesis by simp
  next
    case False
    with failed.prems have "pm = p" by simp
    then show ?thesis by simp
  qed
next
  case (installed p pms path out)
  from installed.prems have d: "cmd p \<notin> cmd ` set pms" by simp
  show ?case
  proof (cases "pm \<in> set pms")
    case True
    then have "cmd pm \<in> cmd ` set pms" by (rule imageI)
    with d have "cmd pm \<noteq> cmd p" by auto
    then have "installCommand pm \<noteq> installCommand p" by (auto dest: installCommand_cmd)
    with \<open>cmd pm \<noteq> cmd p\<close> show ?thesis by simp
  next
    case False
    with installed.prems have "pm = p" by simp
    then show ?thesis by simp
  qed
qed

lemma scanned_resolved_unresolved:
  "scanned pms evs res \<Longrightarrow> distinct (map cmd pms) \<Longrightarrow>
     set (resolved evs) \<inter> set (unresolved evs) = {}"
proof (induction rule: scanned.induct)
  case exhausted
  show ?case by simp
next
  case (skipped pms evs res p)
  from skipped.hyps have "set (resolved evs) \<subseteq> cmd ` set pms" by (simp add: scanned_names)
  with skipped show ?case by auto
next
  case (failed pms evs res p path err out)
  from failed.hyps have "set (unresolved evs) \<subseteq> cmd ` set pms" by (simp add: scanned_names)
  with failed show ?case by auto
next
  case (installed p pms path out)
  show ?case by simp
qed

lemma scanned_unresolved_skipped:
  assumes "scanned pms evs res" "distinct (map cmd pms)" "pm \<in> set pms"
    "cmd pm \<in> set (unresolved evs)"
  shows "installCommand pm \<notin> fst ` set (attempts evs)"
proof -
  from scanned_resolved_unresolved [OF assms(1,2)] assms(4)
  have "cmd pm \<notin> set (resolved evs)" by blast
  with scanned_attempted_iff_resolved [OF assms(1,2,3)] show ?thesis by simp
qed

lemma packageManagers_distinct: "distinct (map cmd packageManagers)"
  by (simp add: packageManagers_def)

lemma Ensure_not_installed:
  assumes "VPortExists (fst (DetectSpiceStatus sys st))"
    and "\<not> AgentInstalled (fst (DetectSpiceStatus sys st))"
  shows "EnsureSpiceAgent sys st =
     (case installSpiceAgent sys (snd (DetectSpiceStatus sys st)) of
        (Some err, st2) \<Rightarrow> (Some (InstallFailed err), st2)
      | (None, st2) \<Rightarrow>
          (case startSpiceService sys st2 of
             (Some err, st3) \<Rightarrow> (Some (StartFailed err), st3)
           | (None, st3) \<Rightarrow> (None, st3)))"
proof -
  from assms(2) have nr: "\<not> AgentRunning (fst (DetectSpiceStatus sys st))"
    by (simp add: Detect_status Let_def split: if_splits)
  from assms(2) have nready: "\<not> ClipboardReady (fst (DetectSpiceStatus sys st))"
    by (simp add: Detect_status Let_def split: if_splits)
  show ?thesis
    using assms nr nready
    by (simp add: EnsureSpiceAgent_def case_prod_beta split: option.splits)
qed

text \<open>
  Claim C1, as amended. When the detector finds the transport present and the agent not
  installed, \<open>installSpiceAgent\<close> scans the table in order: the executables are looked up
  in table order from the first manager on; a manager whose executable does not resolve
  is skipped, its install command is not run; the install command of a manager is run
  exactly when its executable resolved; and after an install command that fails the
  next manager is tried. The install commands run are a subsequence of the table. The
  scan ends with success at the first install command that succeeds (every earlier one
  failed), and \<open>EnsureSpiceAgent\<close> goes on to start the service. Only when every manager
  was either unresolvable or tried and failed does \<open>EnsureSpiceAgent\<close> return an install
  failure, and that failure wraps the generic error of the scan, not the failure of one
  command.
\<close>

theorem installSpiceAgent_scans_until_success:
  assumes "VPortExists (fst (DetectSpiceStatus sys st))"
    and "\<not> AgentInstalled (fst (DetectSpiceStatus sys st))"
  shows "\<exists>evs. snd (snd (installSpiceAgent sys (snd (DetectSpiceStatus sys st))))
               = snd (snd (DetectSpiceStatus sys st)) @ evs
     \<and> subseq (map fst (attempts evs)) (map installCommand packageManagers)
     \<and> prefix (probed evs) (map cmd packageManagers)
     \<and> list_all (\<lambda>pm. cmd pm \<in> set (unresolved evs)
                        \<longrightarrow> installCommand pm \<notin> fst ` set (attempts evs)) packageManagers
     \<and> list_all (\<lambda>pm. installCommand pm \<in> fst ` set (attempts evs)
                        \<longleftrightarrow> cmd pm \<in> set (resolved evs)) packageManagers
     \<and> scanned packageManagers evs
           (fst (installSpiceAgent sys (snd (DetectSpiceStatus sys st))))
     \<and> (case fst (installSpiceAgent sys (snd (DetectSpiceStatus sys st))) of
          None \<Rightarrow>
            attempts evs \<noteq> [] \<and> fst (snd (last (attempts evs))) = None
            \<and> list_all (\<lambda>a. fst (snd a) \<noteq> None) (butlast (attempts evs))
            \<and> EnsureSpiceAgent sys st =
                (map_option StartFailed
                   (fst (startSpiceService sys
                           (snd (installSpiceAgent sys (snd (DetectSpiceStatus sys st)))))),
                 snd (startSpiceService sys
                        (snd (installSpiceAgent sys (snd (DetectSpiceStatus sys st))))))
        | Some e \<Rightarrow>
            e = NoPackageManager
            \<and> list_all (\<lambda>a. fst (snd a) \<noteq> None) (attempts evs)
            \<and> list_all (\<lambda>pm. Looked (cmd pm) None \<in> set evs
                              \<or> installCommand pm \<in> fst ` set (attempts evs)) packageManagers
            \<and> EnsureSpiceAgent sys st =
                (Some (InstallFailed NoPackageManager),
                 snd (installSpiceAgent sys (snd (DetectSpiceStatus sys st)))))"
proof -
  let ?st1 = "snd (DetectSpiceStatus sys st)"
  let ?res = "fst (installSpiceAgent sys ?st1)"
  from installLoop_scan [of sys packageManagers ?st1] obtain evs where
    tr: "snd (snd (installSpiceAgent sys ?st1)) = snd ?st1 @ evs"
    and sub: "subseq (map fst (attempts evs)) (map installCommand packageManagers)"
    and res: "(case ?res of
          None \<Rightarrow> attempts evs \<noteq> [] \<and> fst (snd (last (attempts evs))) = None
             \<and> list_all (\<lambda>a. fst (snd a) \<noteq> None) (butlast (attempts evs))
        | Some e \<Rightarrow> e = NoPackageManager
             \<and> list_all (\<lambda>a. fst (snd a) \<noteq> None) (attempts evs)
             \<and> list_all (\<lambda>pm. Looked (cmd pm) None \<in> set evs
                               \<or> installCommand pm \<in> fst ` set (attempts evs)) packageManagers)"
    unfolding installSpiceAgent_def by blast
  from installLoop_scanned [of sys packageManagers ?st1] obtain evs' where
    tr': "snd (snd (installSpiceAgent sys ?st1)) = snd ?st1 @ evs'"
    and sc': "scanned packageManagers evs' ?res"
    unfolding installSpiceAgent_def by blast
  from tr tr' have "evs' = evs" by simp
  with sc' have sc: "scanned packageManagers evs ?res" by simp
  have pre: "prefix (probed evs) (map cmd packageManagers)"
    using sc by (rule scanned_probed)
  have skip: "list_all (\<lambda>pm. cmd pm \<in> set (unresolved evs)
                        \<longrightarrow> installCommand pm \<notin> fst ` set (attempts evs)) packageManagers"
    unfolding list_all_iff
    using scanned_unresolved_skipped [OF sc packageManagers_distinct] by blast
  have iff: "list_all (\<lambda>pm. installCommand pm \<in> fst ` set (attempts evs)
                        \<longleftrightarrow> cmd pm \<in> set (resolved evs)) packageManagers"
    unfolding list_all_iff
    using scanned_attempted_iff_resolved [OF sc packageManagers_distinct] by blast
  note ens = Ensure_not_installed [OF assms]
  have fin: "(case ?res of
          None \<Rightarrow>
            attempts evs \<noteq> [] \<and> fst (snd (last (attempts evs))) = None
            \<and> list_all (\<lambda>a. fst (snd a) \<noteq> None) (butlast (attempts evs))
            \<and> EnsureSpiceAgent sys st =
                (map_option StartFailed (fst (startSpiceService sys (snd (installSpiceAgent sys ?st1)))),
                 snd (startSpiceService sys (snd (installSpiceAgent sys ?st1))))
        | Some e \<Rightarrow>
            e = NoPackageManager
            \<and> list_all (\<lambda>a. fst (snd a) \<noteq> None) (attempts evs)
            \<and> list_all (\<lambda>pm. Looked (cmd pm) None \<in> set evs
                              \<or> installCommand pm \<in> fst ` set (attempts evs)) packageManagers
            \<and> EnsureSpiceAgent sys st =
                (Some (InstallFailed NoPackageManager), snd (installSpiceAgent sys ?st1)))"
  proof (cases ?res)
    case None
    with res ens show ?thesis
      by (simp add: case_prod_beta split: option.splits)
  next
    case (Some e)
    with res ens show ?thesis
      by (simp add: case_prod_beta split: option.splits)
  qed
  from tr sub pre skip iff sc fin show ?thesis by blast
qed

theorem installSpiceAgent_scans_until_success_witness:
  "VPortExists (fst (DetectSpiceStatus (guest True [''dnf'', ''zypper''] [''dnf'', ''zypper''])
                       ((False, False), [])))
   \<and> \<not> AgentInstalled (fst (DetectSpiceStatus (guest True [''dnf'', ''zypper''] [''dnf'', ''zypper''])
                       ((False, False), [])))
   \<and> fst (EnsureSpiceAgent (guest True [''dnf'', ''zypper''] [''dnf'', ''zypper''])
            ((False, False), [])) = Some (InstallFailed NoPackageManager)
   \<and> snd (snd (installSpiceAgent (guest True [''dnf'', ''zypper''] [''dnf'', ''zypper''])
                 ((False, False), []))) =
       [Looked ''apt-get'' None,
        Looked ''dnf'' (Some ''/usr/bin/dnf''),
        Ran [''dnf'', ''install'', ''-y'', ''spice-vdagent'']
          (Some ''exit status 100'', ''Unable to locate package spice-vdagent''),
        Looked ''yum'' None,
        Looked ''zypper'' (Some ''/usr/bin/zypper''),
        Ran [''zypper'', ''install'', ''-y'', ''spice-vdagent'']
          (Some ''exit status 100'', ''Unable to locate package spice-vdagent''),
        Looked ''pacman'' None]"
proof -
  let ?G = "guest True [''dnf'', ''zypper''] [''dnf'', ''zypper'']"
  let ?S = "((False, False), []) :: (bool \<times> bool) state"
  have port: "VPortExists (fst (DetectSpiceStatus ?G ?S))" by code_simp
  have absent: "\<not> AgentInstalled (fst (DetectSpiceStatus ?G ?S))" by code_simp
  have fails: "fst (installSpiceAgent ?G (snd (DetectSpiceStatus ?G ?S))) = Some NoPackageManager"
    by code_simp
  have trace: "snd (snd (installSpiceAgent ?G ?S)) =
       [Looked ''apt-get'' None,
        Looked ''dnf'' (Some ''/usr/bin/dnf''),
        Ran [''dnf'', ''install'', ''-y'', ''spice-vdagent'']
          (Some ''exit status 100'', ''Unable to locate package spice-vdagent''),
        Looked ''yum'' None,
        Looked ''zypper'' (Some ''/usr/bin/zypper''),
        Ran [''zypper'', ''install'', ''-y'', ''spice-vdagent'']
          (Some ''exit status 100'', ''Unable to locate package spice-vdagent''),
        Looked ''pacman'' None]"
    by code_simp
  from installSpiceAgent_scans_until_success [OF port absent] fails
  have "fst (EnsureSpiceAgent ?G ?S) = Some (InstallFailed NoPackageManager)"
    by auto
  with port absent trace show ?thesis by simp
qed

text \<open>
  The claim as stated fails: on a guest where \<open>apt-get\<close> and \<open>dnf\<close> both resolve and the
  install with \<open>apt-get\<close> fails, \<open>dnf\<close> is tried next and the call succeeds.
\<close>

theorem installSpiceAgent_first_strategy_counterexample:
  "EnsureSpiceAgent (guest True [''apt-get'', ''dnf''] [''apt-get'']) ((False, False), []) =
     (None, (True, True),
      [Looked ''spice-vdagentd'' None,
       Ran [''dpkg'', ''-l'', ''spice-vdagent''] (Some ''exit status 1'', []),
       Ran [''rpm'', ''-q'', ''spice-vdagent''] (Some ''exit status 1'', []),
       Looked ''apt-get'' (Some ''/usr/bin/apt-get''),
       Ran [''apt-get'', ''install'', ''-y'', ''spice-vdagent'']
         (Some ''exit status 100'', ''Unable to locate package spice-vdagent''),
       Looked ''dnf'' (Some ''/usr/bin/dnf''),
       Ran [''dnf'', ''install'', ''-y'', ''spice-vdagent''] (None, []),
       Ran [''systemctl'', ''enable'', ''spice-vdagentd''] (None, []),
       Ran [''systemctl'', ''start'', ''spice-vdagentd''] (None, []),
       Ran [''systemctl'', ''is-active'', ''spice-vdagentd''] (None, ''active'' @ [CHR 0x0A])])"
  by code_simp

section \<open>The connection descriptor codec\<close>

lemma HasPrefix_append: "HasPrefix (pre @ s) pre"
  by (simp add: HasPrefix_def)

text \<open>
  Claim C5. For every unix-socket display string, that is the prefix \<open>spice+unix://\<close>
  followed by a non-empty socket path, \<open>GetConnectionInfo\<close> yields a descriptor whose
  \<open>UnixPath\<close> is the path, and \<open>buildSpiceURI\<close> of that descriptor is the original
  string.
\<close>

theorem unix_socket_round_trip:
  assumes "path \<noteq> []"
  shows "\<exists>conn. GetConnectionInfo (''spice+unix://'' @ path) = Inr conn
           \<and> UnixPath conn = path
           \<and> buildSpiceURI conn = Inr (''spice+unix://'' @ path)"
proof -
  have pre: "HasPrefix (''spice+unix://'' @ path) ''spice+unix://''"
    by (rule HasPrefix_append)
  have trim: "TrimPrefix (''spice+unix://'' @ path) ''spice+unix://'' = path"
    using pre by (simp add: TrimPrefix_def)
  have get: "GetConnectionInfo (''spice+unix://'' @ path)
      = Inr (emptyConnection\<lparr>UnixPath := path\<rparr>)"
    using pre trim by (simp add: GetConnectionInfo_def)
  have uri: "buildSpiceURI (emptyConnection\<lparr>UnixPath := path\<rparr>) = Inr (''spice+unix://'' @ path)"
    using assms by (simp add: buildSpiceURI_def)
  from get uri show ?thesis by simp
qed

theorem unix_socket_round_trip_witness:
  "''/p'' \<noteq> []
   \<and> (\<exists>conn. GetConnectionInfo ''spice+unix:///p'' = Inr conn
         \<and> UnixPath conn = ''/p'' \<and> buildSpiceURI conn = Inr ''spice+unix:///p'')"
proof -
  have ne: "''/p'' \<noteq> []" by simp
  from unix_socket_round_trip [OF ne] ne show ?thesis by simp
qed

text \<open>
  The bare prefix, with an empty path, parses to the empty descriptor, which
  \<open>buildSpiceURI\<close> rejects; it is no well-formed unix-socket string.
\<close>

lemma unix_socket_empty_path:
  "GetConnectionInfo ''spice+unix://'' = Inr emptyConnection
   \<and> buildSpiceURI emptyConnection = Inl HostPortRequired"
  by code_simp








text \<open>
  The vocabulary, spelled out: no value is given for a key when no option has it, and the
  value given is that of the option after which the key does not occur again.
\<close>

lemma givenValue_None_iff:
  "givenValue key s = None \<longleftrightarrow> key \<notin> fst ` set (options s)"
  by (simp add: givenValue_def map_of_eq_None_iff)

lemma map_of_rev_Some:
  "map_of (rev kvs) k = Some v \<longleftrightarrow>
     (\<exists>pre post. kvs = pre @ (k, v) # post \<and> k \<notin> fst ` set post)"
proof (induction kvs rule: rev_induct)
  case Nil
  show ?case by simp
next
  case (snoc kv kvs)
  obtain k' v' where kv: "kv = (k', v')" by (cases kv)
  show ?case
  proof (cases "k = k'")
    case True
    have "(\<exists>pre post. kvs @ [(k, v')] = pre @ (k, v) # post \<and> k \<notin> fst ` set post) \<longleftrightarrow> v' = v"
      (is "?L \<longleftrightarrow> _")
    proof
      assume ?L
      then obtain pre post where d: "kvs @ [(k, v')] = pre @ (k, v) # post"
        and n: "k \<notin> fst ` set post" by blast
      have "post = []"
      proof (rule ccontr)
        assume "post \<noteq> []"
        then obtain post' x where p: "post = post' @ [x]"
          by (metis rev_exhaust)
        with d have "kvs @ [(k, v')] = (pre @ (k, v) # post') @ [x]" by simp
        then have "x = (k, v')" by (simp only: append1_eq_conv)
        with p n show False by simp
      qed
      with d show "v' = v" by simp
    next
      assume "v' = v"
      then have "kvs @ [(k, v')] = kvs @ (k, v) # [] \<and> k \<notin> fst ` set []" by simp
      then show ?L by blast
    qed
    with True kv show ?thesis by simp
  next
    case False
    have "(\<exists>pre post. kvs @ [(k', v')] = pre @ (k, v) # post \<and> k \<notin> fst ` set post)
      \<longleftrightarrow> (\<exists>pre post. kvs = pre @ (k, v) # post \<and> k \<notin> fst ` set post)"
      (is "?L \<longleftrightarrow> ?R")
    proof
      assume ?L
      then obtain pre post where d: "kvs @ [(k', v')] = pre @ (k, v) # post"
        and n: "k \<notin> fst ` set post" by blast
      from d False have "post \<noteq> []" by auto
      then obtain post' x where p: "post = post' @ [x]"
        by (metis rev_exhaust)
      with d have "kvs @ [(k', v')] = (pre @ (k, v) # post') @ [x]" by simp
      then have "kvs = pre @ (k, v) # post'" by (simp only: append1_eq_conv)
      moreover from p n have "k \<notin> fst ` set post'" by simp
      ultimately show ?R by blast
    next
      assume ?R
      then obtain pre post where d: "kvs = pre @ (k, v) # post"
        and n: "k \<notin> fst ` set post" by blast
      from d have "kvs @ [(k', v')] = pre @ (k, v) # (post @ [(k', v')])" by simp
      moreover from n False have "k \<notin> fst ` set (post @ [(k', v')])" by simp
      ultimately show ?L by blast
    qed
    with False kv snoc.IH show ?thesis by simp
  qed
qed

lemma givenValue_Some_iff:
  "givenValue key s = Some v \<longleftrightarrow>
     (\<exists>pre post. options s = pre @ (key, v) # post \<and> key \<notin> fst ` set post)"
  by (simp add: givenValue_def map_of_rev_Some)

text \<open>The display strings of the package's tests, and one with white space and a repeated key.\<close>

lemma GetConnectionInfo_examples:
  "GetConnectionInfo ''spice'' =
     Inr (emptyConnection\<lparr>Host := ''127.0.0.1'', Port := ''5900''\<rparr>)"
  "GetConnectionInfo ''spice,port=5930'' =
     Inr (emptyConnection\<lparr>Host := ''127.0.0.1'', Port := ''5930''\<rparr>)"
  "GetConnectionInfo ''spice,port=5900,disable-ticketing=on'' =
     Inr (emptyConnection\<lparr>Host := ''127.0.0.1'', Port := ''5900''\<rparr>)"
  "GetConnectionInfo ''vnc'' = Inl (InvalidDisplayString ''vnc'')"
  "GetConnectionInfo ''spice, addr = 10.0.0.1 ,port=1,port=2'' =
     Inr (emptyConnection\<lparr>Host := ''10.0.0.1'', Port := ''2''\<rparr>)"
  by code_simp+

section \<open>The external viewer resolver\<close>

lemma findFirst_Inr:
  "findFirst look cs = Inr p \<longleftrightarrow>
     (\<exists>pre c post. cs = pre @ c # post \<and> (\<forall>x \<in> set pre. look x = None) \<and> look c = Some p)"
proof (induction cs)
  case Nil
  show ?case by simp
next
  case (Cons a cs)
  show ?case
  proof (cases "look a")
    case None
    have "(\<exists>pre c post. a # cs = pre @ c # post \<and> (\<forall>x \<in> set pre. look x = None) \<and> look c = Some p)
      \<longleftrightarrow> (\<exists>pre c post. cs = pre @ c # post \<and> (\<forall>x \<in> set pre. look x = None) \<and> look c = Some p)"
      (is "?L \<longleftrightarrow> ?R")
    proof
      assume ?L
      then obtain pre c post where d: "a # cs = pre @ c # post"
        and n: "\<forall>x \<in> set pre. look x = None" and s: "look c = Some p" by blast
      from d s None obtain pre' where "pre = a # pre'" by (cases pre) auto
      with d n s show ?R by auto
    next
      assume ?R
      then obtain pre c post where d: "cs = pre @ c # post"
        and n: "\<forall>x \<in> set pre. look x = None" and s: "look c = Some p" by blast
      from d have "a # cs = (a # pre) @ c # post" by simp
      moreover from n None have "\<forall>x \<in> set (a # pre). look x = None" by simp
      ultimately show ?L using s by blast
    qed
    with None Cons.IH show ?thesis by simp
  next
    case (Some q)
    have "(\<exists>pre c post. a # cs = pre @ c # post \<and> (\<forall>x \<in> set pre. look x = None) \<and> look c = Some p)
      \<longleftrightarrow> q = p" (is "?L \<longleftrightarrow> _")
    proof
      assume ?L
      then obtain pre c post where d: "a # cs = pre @ c # post"
        and n: "\<forall>x \<in> set pre. look x = None" and s: "look c = Some p" by blast
      show "q = p"
      proof (cases pre)
        case Nil
        with d s Some show ?thesis by simp
      next
        case (Cons b pre')
        with d n Some show ?thesis by simp
      qed
    next
      assume "q = p"
      with Some have "a # cs = [] @ a # cs \<and> (\<forall>x \<in> set []. look x = None) \<and> look a = Some p"
        by simp
      then show ?L by blast
    qed
    with Some show ?thesis by simp
  qed
qed

lemma findFirst_Inl:
  "findFirst look cs = Inl e \<longleftrightarrow> e = NoViewerFound \<and> (\<forall>c \<in> set cs. look c = None)"
  by (induction cs) (auto split: option.splits)

text \<open>
  Claim C9. On a platform with a candidate list, \<open>FindViewer\<close> returns a path exactly when
  it is the resolution of a candidate before which every candidate failed to resolve,
  and it fails exactly when every candidate of the list failed to resolve; the error is
  then the not-found error, whose message carries the install hint. A candidate that
  does not resolve never ends the search.
\<close>

theorem FindViewer_first_resolvable:
  assumes "candidates goos = Some cs"
  shows "(\<forall>p. FindViewer goos look = Inr p \<longleftrightarrow>
            (\<exists>pre c post. cs = pre @ c # post \<and> (\<forall>x \<in> set pre. look x = None)
                \<and> look c = Some p))
    \<and> (\<forall>e. FindViewer goos look = Inl e \<longleftrightarrow>
            e = NoViewerFound \<and> (\<forall>c \<in> set cs. look c = None))
    \<and> Contains (Error NoViewerFound) ''install remote-viewer or spicy''"
proof -
  have "Contains (Error NoViewerFound) ''install remote-viewer or spicy''" by code_simp
  then show ?thesis
    using assms by (simp add: FindViewer_def findFirst_Inr findFirst_Inl)
qed

theorem FindViewer_first_resolvable_witness:
  "candidates ''linux'' = Some [''remote-viewer'', ''spicy'', ''virt-viewer'']
   \<and> FindViewer ''linux''
        (\<lambda>name. if name = ''remote-viewer'' then None else Some (''/usr/bin/'' @ name))
       = Inr ''/usr/bin/spicy''
   \<and> FindViewer ''linux'' (\<lambda>name. None) = Inl NoViewerFound"
proof -
  let ?look = "\<lambda>name. if name = ''remote-viewer'' then None else Some (''/usr/bin/'' @ name)"
  have c: "candidates ''linux'' = Some [''remote-viewer'', ''spicy'', ''virt-viewer'']"
    by (simp add: candidates_def)
  have split: "[''remote-viewer'', ''spicy'', ''virt-viewer''] = [''remote-viewer''] @ ''spicy'' # [''virt-viewer'']
     \<and> (\<forall>x \<in> set [''remote-viewer'']. ?look x = None) \<and> ?look ''spicy'' = Some ''/usr/bin/spicy''"
    by simp
  from FindViewer_first_resolvable [OF c, of ?look] split
  have found: "FindViewer ''linux'' ?look = Inr ''/usr/bin/spicy''" by blast
  from FindViewer_first_resolvable [OF c, of "\<lambda>name. None"]
  have none: "FindViewer ''linux'' (\<lambda>name. None) = Inl NoViewerFound" by simp
  from c found none show ?thesis by simp
qed

section \<open>The session controller\<close>

lemma windowEvent_keeps_session:
  "HasSession c \<Longrightarrow> HasSession (windowEvent c ev)"
  by (cases ev) (auto simp: HasSession_def BringToForeground_def)

lemma windowEvents_keep_session:
  "HasSession c \<Longrightarrow> HasSession (foldl windowEvent c evs)"
  by (induction evs arbitrary: c) (simp_all add: windowEvent_keeps_session)

text \<open>
  Claim C3. On a fresh controller \<open>BringToForeground\<close> fails with NotInitializedError and
  there is no session. \<open>Start\<close> succeeds on it, and then \<open>HasSession\<close> is true and stays
  true under any sequence of window events. After the close transition \<open>HasSession\<close> is
  false, and a second \<open>Start\<close> on the same controller fails with AlreadyStartedError.
\<close>

theorem session_lifecycle:
  "BringToForeground NewController = Inl NotInitializedError
   \<and> \<not> HasSession NewController
   \<and> (\<exists>c. Start config NewController = Inr c
          \<and> HasSession c
          \<and> HasSession (foldl windowEvent c evs)
          \<and> \<not> HasSession (Close (foldl windowEvent c evs))
          \<and> Start config' (Close (foldl windowEvent c evs)) = Inl AlreadyStartedError)"
proof -
  let ?c = "\<lparr>Session = Created,
             Dimensions = Some (case Width config of None \<Rightarrow> 1920 | Some w \<Rightarrow> w,
                                case Height config of None \<Rightarrow> 1200 | Some h \<Rightarrow> h)\<rparr>"
  have s: "Start config NewController = Inr ?c" by (simp add: Start_def NewController_def)
  have h: "HasSession ?c" by (simp add: HasSession_def)
  then have h2: "HasSession (foldl windowEvent ?c evs)" by (rule windowEvents_keep_session)
  have cl: "\<not> HasSession (Close (foldl windowEvent ?c evs))" by (simp add: HasSession_def Close_def)
  have again: "Start config' (Close (foldl windowEvent ?c evs)) = Inl AlreadyStartedError"
    by (simp add: Start_def Close_def)
  have b: "BringToForeground NewController = Inl NotInitializedError"
    by (simp add: BringToForeground_def NewController_def)
  have n: "\<not> HasSession NewController" by (simp add: HasSession_def NewController_def)
  from s h h2 cl again b n show ?thesis by blast
qed

text \<open>
  \<open>RunGUI\<close> on a closed window tries to create it again and is refused: the window cannot
  be reopened without a new controller.
\<close>

lemma RunGUI_after_close:
  "RunGUI config (Close c) = Inl AlreadyStartedError"
  by (simp add: RunGUI_def HasSession_def Close_def Start_def)

end
